theory Spec2Isabelle
  imports Main
begin

section \<open>Weekly schedule generator (schedule/make\_weeks.py)\<close>

text \<open>
  A shallow embedding of \<^verbatim>\<open>make_weeks.py\<close>. Python strings are modelled as
  \<^typ>\<open>string\<close>, read as ASCII text (code points below 128); Python's unbounded
  integers are \<^typ>\<open>int\<close>. Every exception the script can raise is a
  constructor of \<open>error\<close>, and every fallible function returns \<open>error + 'a\<close>
  with \<open>Inl\<close> for the exception.
\<close>

subsection \<open>Errors\<close>

text \<open>
  \<^item> \<open>UsageExit\<close>: \<^verbatim>\<open>print(__doc__); sys.exit(1)\<close> (fewer than four tokens);
  \<^item> \<open>RangeExit\<close>: \<^verbatim>\<open>SystemExit("end_date must be on or after start_date")\<close>;
  \<^item> \<open>MissingValueExit\<close>: \<^verbatim>\<open>SystemExit("--no-class requires a value")\<close>;
  \<^item> \<open>UnknownDay tok\<close>: \<^verbatim>\<open>ValueError(f"Unknown day token: {tok!r}")\<close>;
  \<^item> \<open>BadDate\<close>: the exception raised by \<^verbatim>\<open>int\<close>, by the tuple unpacking or by
    the \<^verbatim>\<open>date\<close> constructor inside \<^verbatim>\<open>parse_date\<close>;
  \<^item> \<open>DateOverflow\<close>: the \<^verbatim>\<open>OverflowError\<close> of \<^verbatim>\<open>date + timedelta\<close> when the
    result leaves the range of the \<^verbatim>\<open>date\<close> type.
\<close>

datatype error =
    UsageExit
  | RangeExit
  | MissingValueExit
  | UnknownDay string
  | BadDate
  | DateOverflow

subsection \<open>String operations of the Python library used by the script\<close>

definition is_space :: "char \<Rightarrow> bool" where
  \<comment> \<open>\<^verbatim>\<open>str.isspace\<close> on ASCII: tab, LF, VT, FF, CR, FS, GS, RS, US and space.\<close>
  "is_space c = (let n = (of_char c :: nat) in (9 \<le> n \<and> n \<le> 13) \<or> (28 \<le> n \<and> n \<le> 32))"

definition is_upper :: "char \<Rightarrow> bool" where
  "is_upper c = (let n = (of_char c :: nat) in 65 \<le> n \<and> n \<le> 90)"

definition is_lower :: "char \<Rightarrow> bool" where
  "is_lower c = (let n = (of_char c :: nat) in 97 \<le> n \<and> n \<le> 122)"

definition is_digit :: "char \<Rightarrow> bool" where
  "is_digit c = (let n = (of_char c :: nat) in 48 \<le> n \<and> n \<le> 57)"

definition lower_char :: "char \<Rightarrow> char" where
  "lower_char c = (if is_upper c then char_of ((of_char c :: nat) + 32) else c)"

definition lower :: "string \<Rightarrow> string" where
  \<comment> \<open>\<^verbatim>\<open>str.lower\<close>\<close>
  "lower s = map lower_char s"

definition isalpha :: "string \<Rightarrow> bool" where
  \<comment> \<open>\<^verbatim>\<open>str.isalpha\<close>: at least one character, all of them letters.\<close>
  "isalpha s = (s \<noteq> [] \<and> list_all (\<lambda>c. is_upper c \<or> is_lower c) s)"

definition strip :: "string \<Rightarrow> string" where
  \<comment> \<open>\<^verbatim>\<open>str.strip()\<close>\<close>
  "strip s = rev (dropWhile is_space (rev (dropWhile is_space s)))"

definition replace_comma :: "string \<Rightarrow> string" where
  \<comment> \<open>\<^verbatim>\<open>s.replace(",", " ")\<close>\<close>
  "replace_comma s = map (\<lambda>c. if c = CHR '','' then CHR '' '' else c) s"

fun split_ws_aux :: "string \<Rightarrow> string \<Rightarrow> string list" where
  "split_ws_aux cur [] = (if cur = [] then [] else [rev cur])"
| "split_ws_aux cur (c # cs) =
     (if is_space c
      then (if cur = [] then split_ws_aux [] cs else rev cur # split_ws_aux [] cs)
      else split_ws_aux (c # cur) cs)"

definition split_ws :: "string \<Rightarrow> string list" where
  \<comment> \<open>\<^verbatim>\<open>str.split()\<close>: the maximal runs of non-whitespace characters.\<close>
  "split_ws s = split_ws_aux [] s"

fun split_on_aux :: "char \<Rightarrow> string \<Rightarrow> string \<Rightarrow> string list" where
  "split_on_aux sep cur [] = [rev cur]"
| "split_on_aux sep cur (c # cs) =
     (if c = sep then rev cur # split_on_aux sep [] cs
      else split_on_aux sep (c # cur) cs)"

definition split_on :: "char \<Rightarrow> string \<Rightarrow> string list" where
  \<comment> \<open>\<^verbatim>\<open>s.split(sep)\<close> for a one-character separator: empty parts are kept.\<close>
  "split_on sep s = split_on_aux sep [] s"

subsection \<open>Meeting days\<close>

definition DAY_NAME_MAP :: "(string \<times> int) list" where
  "DAY_NAME_MAP =
    [(''m'', 0), (''mon'', 0), (''monday'', 0),
     (''t'', 1), (''tu'', 1), (''tue'', 1), (''tues'', 1), (''tuesday'', 1),
     (''w'', 2), (''wed'', 2), (''wednesday'', 2),
     (''r'', 3), (''th'', 3), (''thu'', 3), (''thur'', 3), (''thurs'', 3), (''thursday'', 3),
     (''f'', 4), (''fri'', 4), (''friday'', 4),
     (''sa'', 5), (''sat'', 5), (''saturday'', 5),
     (''su'', 6), (''sun'', 6), (''sunday'', 6)]"

definition day_lookup :: "string \<Rightarrow> int option" where
  \<comment> \<open>\<^verbatim>\<open>key in DAY_NAME_MAP\<close> and \<^verbatim>\<open>DAY_NAME_MAP[key]\<close>\<close>
  "day_lookup key = map_of DAY_NAME_MAP key"

definition is_compact :: "string \<Rightarrow> bool" where
  \<comment> \<open>\<^verbatim>\<open>" " not in s and s.isalpha() and 1 < len(s) <= 3\<close>\<close>
  "is_compact s = (CHR '' '' \<notin> set s \<and> isalpha s \<and> 1 < length s \<and> length s \<le> 3)"

definition day_tokens :: "string \<Rightarrow> string list" where
  \<comment> \<open>lines 45 to 51: the tokens of a meeting-day string\<close>
  "day_tokens meeting_days_str =
     (let s = strip (replace_comma meeting_days_str)
      in if is_compact s then map (\<lambda>c. [c]) s else split_ws s)"

fun collect_weekdays :: "int list \<Rightarrow> string list \<Rightarrow> error + int list" where
  \<comment> \<open>the loop of lines 53 to 60, \<open>weekdays\<close> being the list built so far\<close>
  "collect_weekdays weekdays [] = Inr weekdays"
| "collect_weekdays weekdays (tok # toks) =
     (case day_lookup (lower tok) of
        None \<Rightarrow> Inl (UnknownDay tok)
      | Some wd \<Rightarrow>
          if wd \<notin> set weekdays then collect_weekdays (weekdays @ [wd]) toks
          else collect_weekdays weekdays toks)"

definition parse_meeting_days :: "string \<Rightarrow> error + int list" where
  "parse_meeting_days meeting_days_str =
     (case collect_weekdays [] (day_tokens meeting_days_str) of
        Inl err \<Rightarrow> Inl err
      | Inr weekdays \<Rightarrow> Inr (sort weekdays))"

subsection \<open>Dates\<close>

text \<open>
  A \<^verbatim>\<open>datetime.date\<close> is represented by its proleptic Gregorian ordinal
  (\<^verbatim>\<open>date.toordinal()\<close>): day 1 is 0001-01-01 and \<open>MAXORDINAL\<close> is 9999-12-31.
  The library compares, hashes and offsets dates through this number:
  \<^verbatim>\<open>d + timedelta(days=n)\<close> is \<^verbatim>\<open>date.fromordinal(d.toordinal() + n)\<close> and raises
  \<^verbatim>\<open>OverflowError\<close> when the sum is not in \<open>1..MAXORDINAL\<close>;
  \<^verbatim>\<open>d.weekday()\<close> is \<^verbatim>\<open>(d.toordinal() + 6) % 7\<close>, Monday being 0.
\<close>

type_synonym date = int

definition MAXORDINAL :: int where
  "MAXORDINAL = 3652059"

definition is_date :: "date \<Rightarrow> bool" where
  "is_date d = (1 \<le> d \<and> d \<le> MAXORDINAL)"

definition date_add :: "date \<Rightarrow> int \<Rightarrow> error + date" where
  \<comment> \<open>\<^verbatim>\<open>d + timedelta(days=n)\<close>\<close>
  "date_add d n = (let ord = d + n in if 0 < ord \<and> ord \<le> MAXORDINAL then Inr ord else Inl DateOverflow)"

definition weekday :: "date \<Rightarrow> int" where
  "weekday d = (d + 6) mod 7"

text \<open>
  The \<^verbatim>\<open>date(y, m, d)\<close> constructor and the conversion between ordinals and
  (year, month, day), as \<^verbatim>\<open>datetime\<close> computes them (\<^verbatim>\<open>_ymd2ord\<close>, \<^verbatim>\<open>_ord2ymd\<close>).
\<close>

definition is_leap :: "int \<Rightarrow> bool" where
  "is_leap y = (y mod 4 = 0 \<and> (y mod 100 \<noteq> 0 \<or> y mod 400 = 0))"

definition days_in_month :: "int \<Rightarrow> int \<Rightarrow> int" where
  "days_in_month y m =
     (if m = 2 then (if is_leap y then 29 else 28)
      else if m = 4 \<or> m = 6 \<or> m = 9 \<or> m = 11 then 30 else 31)"

definition days_before_year :: "int \<Rightarrow> int" where
  "days_before_year y = (let y1 = y - 1 in y1 * 365 + y1 div 4 - y1 div 100 + y1 div 400)"

definition DAYS_BEFORE_MONTH :: "int list" where
  "DAYS_BEFORE_MONTH = [0, 31, 59, 90, 120, 151, 181, 212, 243, 273, 304, 334]"

definition days_before_month :: "int \<Rightarrow> int \<Rightarrow> int" where
  \<comment> \<open>used for \<open>1 \<le> m \<le> 12\<close> only\<close>
  "days_before_month y m =
     DAYS_BEFORE_MONTH ! nat (m - 1) + (if m > 2 \<and> is_leap y then 1 else 0)"

definition ymd2ord :: "int \<Rightarrow> int \<Rightarrow> int \<Rightarrow> int" where
  "ymd2ord y m d = days_before_year y + days_before_month y m + d"

definition make_date :: "int \<Rightarrow> int \<Rightarrow> int \<Rightarrow> error + date" where
  \<comment> \<open>\<^verbatim>\<open>date(y, m, d)\<close>: an exception unless the triple is a day of the calendar\<close>
  "make_date y m d =
     (if 1 \<le> y \<and> y \<le> 9999 \<and> 1 \<le> m \<and> m \<le> 12 \<and> 1 \<le> d \<and> d \<le> days_in_month y m
      then Inr (ymd2ord y m d) else Inl BadDate)"

definition ord2ymd :: "int \<Rightarrow> int \<times> int \<times> int" where
  "ord2ymd ord =
     (let n0 = ord - 1;
          n400 = n0 div 146097; n1 = n0 mod 146097;
          n100 = n1 div 36524; n2 = n1 mod 36524;
          n4 = n2 div 1461; n3 = n2 mod 1461;
          n1y = n3 div 365; n = n3 mod 365;
          year = n400 * 400 + 1 + n100 * 100 + n4 * 4 + n1y
      in if n1y = 4 \<or> n100 = 4 then (year - 1, 12, 31)
         else
           let leapyear = (n1y = 3 \<and> (n4 \<noteq> 24 \<or> n100 = 3));
               month = (n + 50) div 32;
               preceding = DAYS_BEFORE_MONTH ! nat (month - 1)
                            + (if month > 2 \<and> leapyear then 1 else 0)
           in if preceding > n
              then let month' = month - 1;
                       preceding' = preceding
                         - ((if month' = 2 then 28
                             else if month' = 4 \<or> month' = 6 \<or> month' = 9 \<or> month' = 11 then 30
                             else 31)
                            + (if month' = 2 \<and> leapyear then 1 else 0))
                   in (year, month', n - preceding' + 1)
              else (year, month, n - preceding + 1))"

text \<open>
  \<^verbatim>\<open>int(x)\<close> on ASCII text: surrounding whitespace (tab, LF, VT, FF, CR, space) is
  dropped, then an optional sign, then decimal digits, where single underscores may
  separate digits.
\<close>

definition digit_val :: "char \<Rightarrow> int" where
  "digit_val c = int (of_char c) - 48"

fun parse_digits :: "int \<Rightarrow> bool \<Rightarrow> string \<Rightarrow> int option" where
  \<comment> \<open>the value so far; whether the previous character was an underscore\<close>
  "parse_digits acc after_us [] = (if after_us then None else Some acc)"
| "parse_digits acc after_us (c # cs) =
     (if is_digit c then parse_digits (10 * acc + digit_val c) False cs
      else if c = CHR ''_'' \<and> \<not> after_us then parse_digits acc True cs
      else None)"

definition parse_unsigned :: "string \<Rightarrow> int option" where
  "parse_unsigned s =
     (case s of [] \<Rightarrow> None
      | c # cs \<Rightarrow> if is_digit c then parse_digits (digit_val c) False cs else None)"

definition is_int_space :: "char \<Rightarrow> bool" where
  \<comment> \<open>the whitespace that \<^verbatim>\<open>int\<close> skips around a numeral: tab, LF, VT, FF, CR and space\<close>
  "is_int_space c = (let n = (of_char c :: nat) in (9 \<le> n \<and> n \<le> 13) \<or> n = 32)"

definition parse_int :: "string \<Rightarrow> int option" where
  "parse_int x =
     (case rev (dropWhile is_int_space (rev (dropWhile is_int_space x))) of
        [] \<Rightarrow> None
      | c # cs \<Rightarrow>
          if c = CHR ''-'' then map_option uminus (parse_unsigned cs)
          else if c = CHR ''+'' then parse_unsigned cs
          else parse_unsigned (c # cs))"

definition parse_date :: "string \<Rightarrow> error + date" where
  \<comment> \<open>the unpacking fails unless there are exactly three parts, each an integer\<close>
  "parse_date dstr =
     (case map parse_int (split_on CHR ''/'' (strip dstr)) of
        [Some m, Some d, Some y] \<Rightarrow> make_date y m d
      | _ \<Rightarrow> Inl BadDate)"

fun parse_dates :: "string list \<Rightarrow> error + date list" where
  \<comment> \<open>\<^verbatim>\<open>parse_date(p) for p in parts\<close>, stopping at the first exception\<close>
  "parse_dates [] = Inr []"
| "parse_dates (p # ps) =
     (case parse_date p of
        Inl err \<Rightarrow> Inl err
      | Inr d \<Rightarrow> (case parse_dates ps of Inl err \<Rightarrow> Inl err | Inr ds \<Rightarrow> Inr (d # ds)))"

definition parse_date_list :: "string \<Rightarrow> error + date set" where
  "parse_date_list s =
     (if s = [] then Inr {}
      else case parse_dates (split_ws (replace_comma s)) of
             Inl err \<Rightarrow> Inl err
           | Inr ds \<Rightarrow> Inr (set ds))"

subsection \<open>The calendar engine\<close>

record week =
  week_number :: nat
  week_start :: date
  week_end :: date
  meeting_dates :: "date list"

fun collect_meetings :: "date list \<Rightarrow> date \<Rightarrow> date \<Rightarrow> date \<Rightarrow> date set \<Rightarrow> int list \<Rightarrow> error + date list" where
  \<comment> \<open>the loop of lines 82 to 85, \<open>meetings\<close> being the list built so far\<close>
  "collect_meetings meetings wstart start_date end_date no_class_dates [] = Inr meetings"
| "collect_meetings meetings wstart start_date end_date no_class_dates (wd # wds) =
     (case date_add wstart wd of
        Inl err \<Rightarrow> Inl err
      | Inr d \<Rightarrow>
          if start_date \<le> d \<and> d \<le> end_date \<and> d \<notin> no_class_dates
          then collect_meetings (meetings @ [d]) wstart start_date end_date no_class_dates wds
          else collect_meetings meetings wstart start_date end_date no_class_dates wds)"

text \<open>
  The generator's \<^verbatim>\<open>while True\<close> loop from a given \<open>week_index\<close>. The result is the
  list of weeks yielded, in the order they are yielded, and the way the generator ends:
  \<open>None\<close> for the \<^verbatim>\<open>break\<close>, \<open>Some err\<close> for an exception (the weeks yielded before it
  have already been handed to the consumer).
\<close>

function build_weeks ::
  "date \<Rightarrow> date \<Rightarrow> date \<Rightarrow> int list \<Rightarrow> date set \<Rightarrow> nat \<Rightarrow> week list \<times> error option" where
  "build_weeks first_monday start_date end_date meeting_days no_class_dates week_index =
     (case date_add first_monday (7 * int week_index) of
        Inl err \<Rightarrow> ([], Some err)
      | Inr wstart \<Rightarrow>
          (case date_add wstart 6 of
             Inl err \<Rightarrow> ([], Some err)
           | Inr wend \<Rightarrow>
               if wstart > end_date then ([], None)
               else
                 (case collect_meetings [] wstart start_date end_date no_class_dates meeting_days of
                    Inl err \<Rightarrow> ([], Some err)
                  | Inr meetings \<Rightarrow>
                      (case build_weeks first_monday start_date end_date meeting_days
                              no_class_dates (week_index + 1) of
                         (weeks, ending) \<Rightarrow>
                           (\<lparr>week_number = week_index + 1, week_start = wstart,
                             week_end = wend, meeting_dates = meetings\<rparr> # weeks, ending)))))"
  by pat_completeness auto
termination
proof (relation "measure (\<lambda>(first_monday, start_date, end_date, meeting_days, no_class_dates, week_index).
                   nat (end_date + 1 - (first_monday + 7 * int week_index)))")
  show "wf (measure (\<lambda>(first_monday, start_date, end_date, meeting_days, no_class_dates, week_index).
                   nat (end_date + 1 - (first_monday + 7 * int week_index))))"
    by simp
next
  fix first_monday start_date end_date :: date
    and meeting_days :: "int list" and no_class_dates :: "date set"
    and week_index :: nat and wstart wend :: date and meetings :: "date list"
  assume "date_add first_monday (7 * int week_index) = Inr wstart"
    and "\<not> end_date < wstart"
  then have "first_monday + 7 * int week_index \<le> end_date"
    by (auto simp: date_add_def Let_def split: if_splits)
  then show "((first_monday, start_date, end_date, meeting_days, no_class_dates, week_index + 1),
              (first_monday, start_date, end_date, meeting_days, no_class_dates, week_index))
             \<in> measure (\<lambda>(first_monday, start_date, end_date, meeting_days, no_class_dates, week_index).
                   nat (end_date + 1 - (first_monday + 7 * int week_index)))"
    by simp
qed

declare build_weeks.simps [simp del]

definition build_schedule ::
  "date \<Rightarrow> date \<Rightarrow> int list \<Rightarrow> date set \<Rightarrow> week list \<times> error option" where
  "build_schedule start_date end_date meeting_days no_class_dates =
     (case date_add start_date (- weekday start_date) of
        Inl err \<Rightarrow> ([], Some err)
      | Inr first_monday \<Rightarrow>
          build_weeks first_monday start_date end_date meeting_days no_class_dates 0)"

subsection \<open>The document generator\<close>

definition digit_char :: "nat \<Rightarrow> char" where
  "digit_char n = char_of (48 + n)"

fun digits_of :: "nat \<Rightarrow> string" where
  \<comment> \<open>the decimal numeral of a natural number\<close>
  "digits_of n = (if n < 10 then [digit_char n] else digits_of (n div 10) @ [digit_char (n mod 10)])"

declare digits_of.simps [simp del]

definition fmt_02d :: "nat \<Rightarrow> string" where
  \<comment> \<open>\<^verbatim>\<open>f"{n:02d}"\<close> and \<^verbatim>\<open>%d\<close> of \<^verbatim>\<open>strftime\<close>: at least two digits\<close>
  "fmt_02d n = (if n < 10 then CHR ''0'' # digits_of n else digits_of n)"

definition MONTH_NAMES :: "string list" where
  \<comment> \<open>\<^verbatim>\<open>%B\<close> in the C locale, which the script never changes\<close>
  "MONTH_NAMES =
     [''January'', ''February'', ''March'', ''April'', ''May'', ''June'', ''July'',
      ''August'', ''September'', ''October'', ''November'', ''December'']"

definition format_date_for_title :: "date \<Rightarrow> string" where
  \<comment> \<open>\<^verbatim>\<open>d.strftime("%B %-d")\<close>\<close>
  "format_date_for_title d =
     (case ord2ymd d of (y, m, dd) \<Rightarrow> MONTH_NAMES ! nat (m - 1) @ '' '' @ digits_of (nat dd))"

definition format_date_for_meeting_title :: "date \<Rightarrow> string" where
  \<comment> \<open>\<^verbatim>\<open>d.strftime("%B %d")\<close>\<close>
  "format_date_for_meeting_title d =
     (case ord2ymd d of (y, m, dd) \<Rightarrow> MONTH_NAMES ! nat (m - 1) @ '' '' @ fmt_02d (nat dd))"

fun join_lines :: "string list \<Rightarrow> string" where
  \<comment> \<open>\<^verbatim>\<open>"\n".join(lines)\<close>\<close>
  "join_lines [] = []"
| "join_lines [l] = l"
| "join_lines (l # ls) = l @ [CHR 0x0A] @ join_lines ls"

definition meeting_item :: "date \<Rightarrow> string list" where
  \<comment> \<open>the six lines appended for one meeting date (lines 117 to 123)\<close>
  \<open>meeting_item d =
     [''      <li>'',
      ''        <title>'' @ format_date_for_meeting_title d @ ''</title>'',
      ''        <p>'',
      ''          Material'',
      ''        </p>'',
      ''      </li>'']\<close>

definition week_xml_lines :: "nat \<Rightarrow> date \<Rightarrow> date \<Rightarrow> date list \<Rightarrow> string list" where
  \<comment> \<open>the list \<open>lines\<close> of \<^verbatim>\<open>generate_week_xml\<close> when it is joined\<close>
  \<open>week_xml_lines wnumber wstart wend mdates =
     [''<?xml version="1.0" encoding="utf-8"?>'',
      ''<subsection xml:id="week-'' @ fmt_02d wnumber @ ''">'',
      ''  <title>'' @ format_date_for_title wstart @ '' <ndash/> ''
         @ format_date_for_title wend @ ''</title>'',
      ''  <p>'',
      ''    <dl>'']
     @ concat (map meeting_item mdates)
     @ [''    </dl>'',
        ''  </p>'',
        ''</subsection>'']\<close>

definition generate_week_xml :: "nat \<Rightarrow> date \<Rightarrow> date \<Rightarrow> date list \<Rightarrow> string" where
  "generate_week_xml wnumber wstart wend mdates =
     join_lines (week_xml_lines wnumber wstart wend mdates)"

subsection \<open>The file writer and the main program\<close>

text \<open>
  What the program does to its environment, in the order it does it. The file system
  is taken to accept every write.
\<close>

datatype effect =
    WriteFile string string \<comment> \<open>\<^verbatim>\<open>Path(name).write_text(text, encoding="utf-8")\<close>\<close>
  | PrintLine string \<comment> \<open>\<^verbatim>\<open>print(text)\<close>\<close>
  | PrintUsage \<comment> \<open>\<^verbatim>\<open>print(__doc__)\<close>\<close>

definition include_line :: "string \<Rightarrow> string" where
  \<open>include_line week_file = ''  <xi:include href="'' @ week_file @ ''"/>''\<close>

definition main_ptx_lines :: "string list \<Rightarrow> string list" where
  \<comment> \<open>the list \<open>lines\<close> of \<^verbatim>\<open>generate_main_ptx\<close> when it is joined\<close>
  \<open>main_ptx_lines week_files =
     [''<?xml version="1.0" encoding="utf-8"?>'',
      ''<section xml:id="schedule" xmlns:xi="http://www.w3.org/2001/XInclude">'',
      ''  <title>Schedule</title>'']
     @ map include_line week_files
     @ [[],
        ''  <conclusion>'',
        ''    <warning>'',
        ''      <p>'',
        ''        The instructor reserves the right to modify the schedule as needed.'',
        ''      </p>'',
        ''    </warning>'',
        ''  </conclusion>'',
        ''</section>'']\<close>

definition generate_main_ptx :: "string list \<Rightarrow> effect list" where
  "generate_main_ptx week_files =
     [WriteFile ''main.ptx'' (join_lines (main_ptx_lines week_files)),
      PrintLine ''Wrote main.ptx'']"

definition week_filename :: "nat \<Rightarrow> string" where
  \<comment> \<open>\<^verbatim>\<open>f"week{week_number:02d}.ptx"\<close>\<close>
  "week_filename wnumber = ''week'' @ fmt_02d wnumber @ ''.ptx''"

definition write_week :: "week \<Rightarrow> effect list" where
  \<comment> \<open>the body of the loop of \<^verbatim>\<open>main\<close> for one week (lines 182 to 186)\<close>
  "write_week w =
     [WriteFile (week_filename (week_number w))
        (generate_week_xml (week_number w) (week_start w) (week_end w) (meeting_dates w)),
      PrintLine (''Wrote '' @ week_filename (week_number w))]"

definition index_of :: "'a \<Rightarrow> 'a list \<Rightarrow> nat" where
  \<comment> \<open>\<^verbatim>\<open>xs.index(x)\<close> when \<open>x\<close> is in \<open>xs\<close>: the first position\<close>
  "index_of x xs = length (takeWhile (\<lambda>y. y \<noteq> x) xs)"

definition no_class_arg :: "string list \<Rightarrow> error + date set" where
  \<comment> \<open>lines 170 to 175 of \<^verbatim>\<open>main\<close>: the value of \<open>no_class_dates\<close>\<close>
  "no_class_arg argv =
     (if ''--no-class'' \<in> set argv
      then let idx = index_of ''--no-class'' argv
           in if idx + 1 \<ge> length argv then Inl MissingValueExit
              else parse_date_list (argv ! (idx + 1))
      else Inr {})"

definition run_schedule :: "date \<Rightarrow> date \<Rightarrow> int list \<Rightarrow> date set \<Rightarrow> effect list \<times> error option" where
  \<comment> \<open>lines 177 to 189: the loop over the generator, then the index document\<close>
  "run_schedule start_date end_date meeting_days no_class_dates =
     (case build_schedule start_date end_date meeting_days no_class_dates of
        (weeks, Some err) \<Rightarrow> (concat (map write_week weeks), Some err)
      | (weeks, None) \<Rightarrow>
          (concat (map write_week weeks)
             @ generate_main_ptx (map (\<lambda>w. week_filename (week_number w)) weeks), None))"

definition main :: "string list \<Rightarrow> effect list \<times> error option" where
  "main argv =
     (if length argv < 4 then ([PrintUsage], Some UsageExit)
      else
        case parse_date (argv ! 1) of
          Inl err \<Rightarrow> ([], Some err)
        | Inr start_date \<Rightarrow>
            (case parse_date (argv ! 2) of
               Inl err \<Rightarrow> ([], Some err)
             | Inr end_date \<Rightarrow>
                 if end_date < start_date then ([], Some RangeExit)
                 else
                   (case parse_meeting_days (argv ! 3) of
                      Inl err \<Rightarrow> ([], Some err)
                    | Inr meeting_days \<Rightarrow>
                        (case no_class_arg argv of
                           Inl err \<Rightarrow> ([], Some err)
                         | Inr no_class_dates \<Rightarrow>
                             run_schedule start_date end_date meeting_days no_class_dates))))"

subsection \<open>Notions used to state the properties\<close>

text \<open>
  The Monday-to-Sunday calendar weeks that intersect the range, each given by its
  Monday, in ascending order: the week \<open>m..m + 6\<close> meets \<open>s..e\<close> exactly when
  \<open>s - 6 \<le> m\<close> and \<open>m \<le> e\<close>.
\<close>

definition calendar_weeks :: "date \<Rightarrow> date \<Rightarrow> date list" where
  "calendar_weeks s e = filter (\<lambda>m. weekday m = 0) [s - 6..e]"

text \<open>
  The week of index \<open>j\<close> counted from the first Monday \<open>fm\<close>, as one pass through the
  loop body computes it when no date leaves the range of the type.
\<close>

definition week_at :: "date \<Rightarrow> date \<Rightarrow> date \<Rightarrow> int list \<Rightarrow> date set \<Rightarrow> nat \<Rightarrow> week" where
  "week_at fm s e mds nc j =
     \<lparr>week_number = j + 1, week_start = fm + 7 * int j, week_end = fm + 7 * int j + 6,
      meeting_dates =
        filter (\<lambda>d. s \<le> d \<and> d \<le> e \<and> d \<notin> nc) (map (\<lambda>wd. fm + 7 * int j + wd) mds)\<rparr>"

text \<open>The files written by a run, in the order they are written.\<close>

fun writes :: "effect list \<Rightarrow> (string \<times> string) list" where
  "writes [] = []"
| "writes (WriteFile name text # effs) = (name, text) # writes effs"
| "writes (PrintLine text # effs) = writes effs"
| "writes (PrintUsage # effs) = writes effs"

section \<open>Properties\<close>

subsection \<open>Date arithmetic and the week loop\<close>

lemma date_add_Inr:
  "date_add d n = Inr x \<longleftrightarrow> x = d + n \<and> 0 < d + n \<and> d + n \<le> MAXORDINAL"
  by (auto simp: date_add_def Let_def)

lemma date_add_ok: "0 < d + n \<Longrightarrow> d + n \<le> MAXORDINAL \<Longrightarrow> date_add d n = Inr (d + n)"
  by (simp add: date_add_def)

lemma collect_meetings_Inr:
  "collect_meetings acc ws s e nc mds = Inr ms \<Longrightarrow>
     ms = acc @ filter (\<lambda>d. s \<le> d \<and> d \<le> e \<and> d \<notin> nc) (map (\<lambda>wd. ws + wd) mds)"
proof (induction mds arbitrary: acc)
  case Nil
  then show ?case by simp
next
  case (Cons wd wds)
  from Cons.prems obtain d where d: "date_add ws wd = Inr d"
    by (cases "date_add ws wd") auto
  then have dv: "d = ws + wd" by (simp add: date_add_Inr)
  show ?case
  proof (cases "s \<le> d \<and> d \<le> e \<and> d \<notin> nc")
    case True
    with Cons.prems d have "collect_meetings (acc @ [d]) ws s e nc wds = Inr ms" by simp
    from Cons.IH[OF this] True dv show ?thesis by simp
  next
    case False
    with Cons.prems d have "collect_meetings acc ws s e nc wds = Inr ms" by auto
    from Cons.IH[OF this] False dv show ?thesis by auto
  qed
qed

lemma collect_meetings_ok:
  "0 < ws \<Longrightarrow> ws + 6 \<le> MAXORDINAL \<Longrightarrow> set mds \<subseteq> {0..6} \<Longrightarrow>
   collect_meetings acc ws s e nc mds =
     Inr (acc @ filter (\<lambda>d. s \<le> d \<and> d \<le> e \<and> d \<notin> nc) (map (\<lambda>wd. ws + wd) mds))"
proof (induction mds arbitrary: acc)
  case Nil
  then show ?case by simp
next
  case (Cons wd wds)
  from Cons.prems have "0 < ws + wd" "ws + wd \<le> MAXORDINAL" by auto
  then have d: "date_add ws wd = Inr (ws + wd)" by (rule date_add_ok)
  from Cons.prems have sub: "set wds \<subseteq> {0..6}" by simp
  show ?case
    using Cons.IH[OF Cons.prems(1,2) sub] d by simp
qed


lemma build_weeks_stop:
  "0 < fm + 7 * int i \<Longrightarrow> fm + 7 * int i + 6 \<le> MAXORDINAL \<Longrightarrow> e < fm + 7 * int i \<Longrightarrow>
   build_weeks fm s e mds nc i = ([], None)"
  by (subst build_weeks.simps) (simp add: date_add_ok)

lemma build_weeks_overflow:
  "\<not> (0 < fm + 7 * int i \<and> fm + 7 * int i + 6 \<le> MAXORDINAL) \<Longrightarrow>
   build_weeks fm s e mds nc i = ([], Some DateOverflow)"
  by (subst build_weeks.simps) (auto simp: date_add_def Let_def)

lemma build_weeks_step:
  assumes "0 < fm + 7 * int i" "fm + 7 * int i + 6 \<le> MAXORDINAL" "fm + 7 * int i \<le> e"
    and "collect_meetings [] (fm + 7 * int i) s e nc mds = Inr ms"
  shows "build_weeks fm s e mds nc i =
    (\<lparr>week_number = i + 1, week_start = fm + 7 * int i, week_end = fm + 7 * int i + 6,
       meeting_dates = ms\<rparr> # fst (build_weeks fm s e mds nc (i + 1)),
     snd (build_weeks fm s e mds nc (i + 1)))"
proof -
  from assms(1,2) have a: "date_add fm (7 * int i) = Inr (fm + 7 * int i)"
    by (simp add: date_add_ok)
  from assms(1,2) have b: "date_add (fm + 7 * int i) 6 = Inr (fm + 7 * int i + 6)"
    by (simp add: date_add_ok)
  from assms(3) have c: "\<not> e < fm + 7 * int i" by linarith
  show ?thesis
    by (subst build_weeks.simps) (simp add: a b c assms(4) split: prod.splits)
qed

lemma build_weeks_raise:
  assumes "0 < fm + 7 * int i" "fm + 7 * int i + 6 \<le> MAXORDINAL" "fm + 7 * int i \<le> e"
    and "collect_meetings [] (fm + 7 * int i) s e nc mds = Inl err"
  shows "build_weeks fm s e mds nc i = ([], Some err)"
proof -
  from assms(1,2) have a: "date_add fm (7 * int i) = Inr (fm + 7 * int i)"
    by (simp add: date_add_ok)
  from assms(1,2) have b: "date_add (fm + 7 * int i) 6 = Inr (fm + 7 * int i + 6)"
    by (simp add: date_add_ok)
  from assms(3) have c: "\<not> e < fm + 7 * int i" by linarith
  show ?thesis
    by (subst build_weeks.simps) (simp add: a b c assms(4))
qed

lemma build_weeks_member:
  "w \<in> set (fst (build_weeks fm s e mds nc i)) \<Longrightarrow>
   \<exists>j\<ge>i. week_number w = j + 1 \<and> week_start w = fm + 7 * int j \<and> week_end w = week_start w + 6
     \<and> 0 < week_start w \<and> week_end w \<le> MAXORDINAL \<and> week_start w \<le> e
     \<and> collect_meetings [] (week_start w) s e nc mds = Inr (meeting_dates w)"
proof (induction fm s e mds nc i rule: build_weeks.induct)
  case (1 fm s e mds nc i)
  let ?x = "fm + 7 * int i"
  show ?case
  proof (cases "0 < ?x \<and> ?x + 6 \<le> MAXORDINAL \<and> ?x \<le> e")
    case False
    then have "fst (build_weeks fm s e mds nc i) = []"
      using build_weeks_stop[of fm i e s mds nc] build_weeks_overflow[of fm i s e mds nc]
      by (cases "0 < ?x \<and> ?x + 6 \<le> MAXORDINAL") auto
    with "1.prems" show ?thesis by simp
  next
    case True
    then have a: "date_add fm (7 * int i) = Inr ?x" and b: "date_add ?x 6 = Inr (?x + 6)"
      and c: "\<not> e < ?x"
      by (simp_all add: date_add_ok)
    show ?thesis
    proof (cases "collect_meetings [] ?x s e nc mds")
      case (Inl err)
      with True have "fst (build_weeks fm s e mds nc i) = []"
        by (simp add: build_weeks_raise)
      with "1.prems" show ?thesis by simp
    next
      case (Inr ms)
      let ?w = "\<lparr>week_number = i + 1, week_start = ?x, week_end = ?x + 6, meeting_dates = ms\<rparr>"
      from True Inr have eq: "fst (build_weeks fm s e mds nc i) = ?w # fst (build_weeks fm s e mds nc (i + 1))"
        by (simp add: build_weeks_step)
      with "1.prems" consider "w = ?w" | "w \<in> set (fst (build_weeks fm s e mds nc (i + 1)))"
        by auto
      then show ?thesis
      proof cases
        case 1
        with True Inr show ?thesis by auto
      next
        case 2
        from "1.IH"[OF a b c Inr 2] obtain j where "j \<ge> i + 1" and
          r: "week_number w = j + 1 \<and> week_start w = fm + 7 * int j \<and> week_end w = week_start w + 6
     \<and> 0 < week_start w \<and> week_end w \<le> MAXORDINAL \<and> week_start w \<le> e
     \<and> collect_meetings [] (week_start w) s e nc mds = Inr (meeting_dates w)" by blast
        then have "j \<ge> i" by simp
        with r show ?thesis by blast
      qed
    qed
  qed
qed

lemma build_weeks_exact:
  "0 < fm + 7 * int i \<Longrightarrow> set mds \<subseteq> {0..6} \<Longrightarrow>
   n = nat ((min e (MAXORDINAL - 6) + 7 - (fm + 7 * int i)) div 7) \<Longrightarrow>
   build_weeks fm s e mds nc i =
     (map (week_at fm s e mds nc) [i..<i + n],
      if fm + 7 * int (i + n) + 6 \<le> MAXORDINAL then None else Some DateOverflow)"
proof (induction n arbitrary: i)
  case 0
  let ?x = "fm + 7 * int i"
  from "0.prems"(3) have gt: "min e (MAXORDINAL - 6) < ?x" by linarith
  show ?case
  proof (cases "?x + 6 \<le> MAXORDINAL")
    case True
    with gt have "e < ?x" by linarith
    with True "0.prems"(1) show ?thesis by (simp add: build_weeks_stop)
  next
    case False
    then show ?thesis by (simp add: build_weeks_overflow)
  qed
next
  case (Suc k)
  let ?x = "fm + 7 * int i"
  from Suc.prems(3) have le: "?x \<le> min e (MAXORDINAL - 6)" by linarith
  then have xe: "?x \<le> e" and xm: "?x + 6 \<le> MAXORDINAL" by linarith+
  have cm: "collect_meetings [] ?x s e nc mds =
     Inr (filter (\<lambda>d. s \<le> d \<and> d \<le> e \<and> d \<notin> nc) (map (\<lambda>wd. ?x + wd) mds))"
    using collect_meetings_ok[OF Suc.prems(1) xm Suc.prems(2), of "[]" s e nc] by simp
  have pos: "0 < fm + 7 * int (i + 1)" using Suc.prems(1) by simp
  have k: "k = nat ((min e (MAXORDINAL - 6) + 7 - (fm + 7 * int (i + 1))) div 7)"
    using Suc.prems(3) by simp
  note ih = Suc.IH[OF pos Suc.prems(2) k]
  have upt: "[i..<i + Suc k] = i # [i + 1..<i + 1 + k]"
    by (simp add: upt_conv_Cons)
  show ?case
    unfolding build_weeks_step[OF Suc.prems(1) xm xe cm] ih upt
    by (simp add: week_at_def)
qed

lemma not_monday_between:
  "weekday m = 0 \<Longrightarrow> m < d \<Longrightarrow> d < m + 7 \<Longrightarrow> weekday d \<noteq> 0"
  unfolding weekday_def by presburger

lemma not_monday_before:
  "weekday m = 0 \<Longrightarrow> m - 7 < d \<Longrightarrow> d < m \<Longrightarrow> weekday d \<noteq> 0"
  unfolding weekday_def by presburger

lemma weekday_first_monday: "weekday (s - weekday s) = 0"
  unfolding weekday_def by presburger

lemma weekday_range: "0 \<le> weekday s \<and> weekday s \<le> 6"
  unfolding weekday_def by presburger

lemma mondays_from:
  "weekday m = 0 \<Longrightarrow> n = nat ((e + 7 - m) div 7) \<Longrightarrow>
   filter (\<lambda>d. weekday d = 0) [m..e] = map (\<lambda>j. m + 7 * int j) [0..<n]"
proof (induction n arbitrary: m)
  case 0
  then have "e < m" by linarith
  then show ?case by simp
next
  case (Suc k)
  then have me: "m \<le> e" by linarith
  have m7: "weekday (m + 7) = 0" using Suc.prems(1) unfolding weekday_def by presburger
  have k: "k = nat ((e + 7 - (m + 7)) div 7)" using Suc.prems(2) by simp
  have skip: "filter (\<lambda>d. weekday d = 0) [m + 1..e] = filter (\<lambda>d. weekday d = 0) [m + 7..e]"
  proof (cases "m + 6 \<le> e")
    case True
    have "[m + 1..e] = [m + 1..m + 6] @ [m + 6 + 1..e]"
      by (rule upto_split2) (use True in simp_all)
    moreover have "filter (\<lambda>d. weekday d = 0) [m + 1..m + 6] = []"
      using not_monday_between[OF Suc.prems(1)] by (intro filter_False) auto
    ultimately show ?thesis by (simp add: add.commute add.left_commute)
  next
    case False
    then have "[m + 7..e] = []" by simp
    moreover have "filter (\<lambda>d. weekday d = 0) [m + 1..e] = []"
      using not_monday_between[OF Suc.prems(1)] False by (intro filter_False) auto
    ultimately show ?thesis by simp
  qed
  have "[0..<Suc k] = 0 # map Suc [0..<k]"
    by (simp add: upt_conv_Cons map_Suc_upt)
  then have "map (\<lambda>j. m + 7 * int j) [0..<Suc k] = m # map (\<lambda>j. m + 7 + 7 * int j) [0..<k]"
    by (simp add: comp_def algebra_simps)
  moreover have "filter (\<lambda>d. weekday d = 0) [m..e] = m # filter (\<lambda>d. weekday d = 0) [m + 7..e]"
    using upto_rec1[OF me] Suc.prems(1) skip by simp
  ultimately show ?case using Suc.IH[OF m7 k] by simp
qed

lemma mondays_window:
  assumes "s \<le> e"
  shows "filter (\<lambda>d. weekday d = 0) [s - 6..e] = filter (\<lambda>d. weekday d = 0) [s - weekday s..e]"
proof -
  let ?fm = "s - weekday s"
  have r: "s - 6 \<le> ?fm" "?fm \<le> e" using weekday_range[of s] assms by linarith+
  have "[s - 6..e] = [s - 6..?fm - 1] @ [?fm..e]" by (rule upto_split1[OF r])
  moreover have "filter (\<lambda>d. weekday d = 0) [s - 6..?fm - 1] = []"
    using not_monday_before[OF weekday_first_monday[of s]] weekday_range[of s]
    by (intro filter_False) auto
  ultimately show ?thesis by simp
qed

lemma first_monday_ok: "is_date s \<Longrightarrow> date_add s (- weekday s) = Inr (s - weekday s)"
proof -
  assume "is_date s"
  then have "1 \<le> s" "s \<le> MAXORDINAL" by (simp_all add: is_date_def)
  moreover have "weekday s \<le> s - 1" "0 \<le> weekday s" using \<open>1 \<le> s\<close> unfolding weekday_def by presburger+
  ultimately show ?thesis by (simp add: date_add_ok)
qed

lemma build_weeks_hd:
  assumes "fst (build_weeks fm s e mds nc i) = w # ws"
  shows "week_start w = fm + 7 * int i"
proof -
  have "w \<in> set (fst (build_weeks fm s e mds nc i))" using assms by simp
  let ?x = "fm + 7 * int i"
  show ?thesis
  proof (cases "0 < ?x \<and> ?x + 6 \<le> MAXORDINAL \<and> ?x \<le> e")
    case False
    then have "fst (build_weeks fm s e mds nc i) = []"
      using build_weeks_stop[of fm i e s mds nc] build_weeks_overflow[of fm i s e mds nc]
      by (cases "0 < ?x \<and> ?x + 6 \<le> MAXORDINAL") auto
    with assms show ?thesis by simp
  next
    case True
    show ?thesis
    proof (cases "collect_meetings [] ?x s e nc mds")
      case (Inl err)
      with True have "fst (build_weeks fm s e mds nc i) = []"
        by (simp add: build_weeks_raise)
      with assms show ?thesis by simp
    next
      case (Inr ms)
      with True assms show ?thesis
        by (auto simp: build_weeks_step)
    qed
  qed
qed

lemma first_monday_bound: "weekday fm = 0 \<Longrightarrow> fm \<le> MAXORDINAL - 5 \<Longrightarrow> fm \<le> MAXORDINAL - 6"
  unfolding weekday_def MAXORDINAL_def by presburger

lemma last_monday_bound:
  "weekday fm = 0 \<Longrightarrow> e \<le> MAXORDINAL - 12 \<Longrightarrow> fm + 7 * q \<le> e + 7 \<Longrightarrow> fm + 7 * q + 6 \<le> MAXORDINAL"
  unfolding weekday_def MAXORDINAL_def by presburger

subsection \<open>The calendar engine: first week, meeting dates, week numbers\<close>

lemma example_schedule:
  "build_schedule 739687 739700 [0, 2] {739693} =
     ([\<lparr>week_number = 1, week_start = 739684, week_end = 739690, meeting_dates = []\<rparr>,
       \<lparr>week_number = 2, week_start = 739691, week_end = 739697, meeting_dates = [739691]\<rparr>,
       \<lparr>week_number = 3, week_start = 739698, week_end = 739704,
          meeting_dates = [739698, 739700]\<rparr>],
      None)"
  by code_simp

lemma example_calendar_weeks: "calendar_weeks 739687 739700 = [739684, 739691, 739698]"
  by code_simp

lemma example_dates:
  "is_date 739687" "is_date 739700" "739700 \<le> MAXORDINAL - 12" "739687 \<le> MAXORDINAL - 5"
  by (simp_all add: is_date_def MAXORDINAL_def)

text \<open>
  Claim C1. Whenever \<open>build_schedule\<close> yields a first week, its \<open>week_start\<close> is the
  start date minus the start date's zero-based weekday offset, it is a Monday, and it
  is not after the start date. A first week is yielded for every pair of dates with
  \<open>start_date \<le> end_date\<close> and meeting days among 0..6, as long as the start date is
  not one of the last five days of the year 9999 (the Sunday of that week would not be
  a date).
\<close>

theorem build_schedule_first_week:
  "(fst (build_schedule s e mds nc) = w # ws \<longrightarrow>
      week_start w = s - weekday s \<and> weekday (week_start w) = 0 \<and> week_start w \<le> s)
   \<and> (is_date s \<and> is_date e \<and> s \<le> e \<and> s \<le> MAXORDINAL - 5 \<and> set mds \<subseteq> {0..6} \<longrightarrow>
        fst (build_schedule s e mds nc) \<noteq> [])"
proof (intro conjI impI)
  assume a: "fst (build_schedule s e mds nc) = w # ws"
  then obtain fm where fm: "date_add s (- weekday s) = Inr fm"
    by (cases "date_add s (- weekday s)") (auto simp: build_schedule_def)
  then have fmv: "fm = s - weekday s" by (simp add: date_add_Inr)
  from a fm have "fst (build_weeks fm s e mds nc 0) = w # ws" by (simp add: build_schedule_def)
  then have "week_start w = fm" using build_weeks_hd by fastforce
  with fmv show "week_start w = s - weekday s" by simp
  then show "weekday (week_start w) = 0" by (simp add: weekday_first_monday)
  from \<open>week_start w = s - weekday s\<close> weekday_range[of s] show "week_start w \<le> s" by simp
next
  assume h: "is_date s \<and> is_date e \<and> s \<le> e \<and> s \<le> MAXORDINAL - 5 \<and> set mds \<subseteq> {0..6}"
  let ?fm = "s - weekday s"
  from h have fm: "date_add s (- weekday s) = Inr ?fm" by (simp add: first_monday_ok)
  then have pos: "0 < ?fm + 7 * int 0" by (simp add: date_add_Inr)
  have "?fm \<le> s" using weekday_range[of s] by simp
  with h have "?fm \<le> e" "?fm \<le> MAXORDINAL - 5" by linarith+
  with first_monday_bound[OF weekday_first_monday[of s]]
  have le: "?fm \<le> min e (MAXORDINAL - 6)" by simp
  define n where "n = nat ((min e (MAXORDINAL - 6) + 7 - (?fm + 7 * int 0)) div 7)"
  from le have "1 \<le> (min e (MAXORDINAL - 6) + 7 - ?fm) div 7" by arith
  then have "0 < n" unfolding n_def by simp
  from h have sub: "set mds \<subseteq> {0..6}" by simp
  from build_weeks_exact[OF pos sub n_def, of s nc] \<open>0 < n\<close> fm
  show "fst (build_schedule s e mds nc) \<noteq> []"
    by (simp add: build_schedule_def)
qed

theorem build_schedule_first_week_witness:
  "fst (build_schedule 739687 739700 [0, 2] {739693})
     = \<lparr>week_number = 1, week_start = 739684, week_end = 739690, meeting_dates = []\<rparr>
       # [\<lparr>week_number = 2, week_start = 739691, week_end = 739697, meeting_dates = [739691]\<rparr>,
          \<lparr>week_number = 3, week_start = 739698, week_end = 739704,
             meeting_dates = [739698, 739700]\<rparr>]
   \<and> (739684 :: int) = 739687 - weekday 739687 \<and> weekday 739684 = 0 \<and> (739684 :: int) \<le> 739687
   \<and> is_date 739687 \<and> is_date 739700 \<and> (739687 :: int) \<le> 739700
   \<and> 739687 \<le> MAXORDINAL - 5 \<and> set [0, 2 :: int] \<subseteq> {0..6}
   \<and> fst (build_schedule 739687 739700 [0, 2] {739693}) \<noteq> []"
  using build_schedule_first_week [of 739687 739700 "[0, 2]" "{739693}"
      "\<lparr>week_number = 1, week_start = 739684, week_end = 739690, meeting_dates = []\<rparr>"
      "[\<lparr>week_number = 2, week_start = 739691, week_end = 739697, meeting_dates = [739691]\<rparr>,
        \<lparr>week_number = 3, week_start = 739698, week_end = 739704,
           meeting_dates = [739698, 739700]\<rparr>]"]
    example_dates
  by (simp add: example_schedule)

text \<open>
  Claim C2. For a meeting-day pattern that is sorted and has no duplicates, every week
  yielded by \<open>build_schedule\<close> has a strictly increasing \<open>meeting_dates\<close> list, and
  every date in it lies between the start date and the end date (inclusive) and is not
  in the exclusion set.
\<close>

theorem build_schedule_meeting_dates:
  "sorted mds \<Longrightarrow> distinct mds \<Longrightarrow> w \<in> set (fst (build_schedule s e mds nc)) \<Longrightarrow>
     sorted_wrt (<) (meeting_dates w)
     \<and> (\<forall>d \<in> set (meeting_dates w). s \<le> d \<and> d \<le> e \<and> d \<notin> nc)"
proof -
  assume so: "sorted mds" and di: "distinct mds"
    and w: "w \<in> set (fst (build_schedule s e mds nc))"
  from w obtain fm where "w \<in> set (fst (build_weeks fm s e mds nc 0))"
    by (cases "date_add s (- weekday s)") (auto simp: build_schedule_def)
  from build_weeks_member[OF this]
  have "collect_meetings [] (week_start w) s e nc mds = Inr (meeting_dates w)" by blast
  from collect_meetings_Inr[OF this]
  have md: "meeting_dates w =
      filter (\<lambda>d. s \<le> d \<and> d \<le> e \<and> d \<notin> nc) (map (\<lambda>wd. week_start w + wd) mds)"
    by simp
  from so di have "sorted_wrt (<) mds" by (simp add: strict_sorted_iff)
  then have "sorted_wrt (<) (map (\<lambda>wd. week_start w + wd) mds)"
    by (simp add: sorted_wrt_map)
  then have "sorted_wrt (<) (meeting_dates w)"
    unfolding md by (rule sorted_wrt_filter)
  moreover from md have "\<forall>d \<in> set (meeting_dates w). s \<le> d \<and> d \<le> e \<and> d \<notin> nc" by simp
  ultimately show ?thesis by blast
qed

theorem build_schedule_meeting_dates_witness:
  "sorted [0, 2 :: int] \<and> distinct [0, 2 :: int]
   \<and> \<lparr>week_number = 3, week_start = 739698, week_end = 739704,
        meeting_dates = [739698, 739700]\<rparr>
       \<in> set (fst (build_schedule 739687 739700 [0, 2] {739693}))
   \<and> sorted_wrt (<) [739698, 739700 :: int]
   \<and> (739687 :: int) \<le> 739698 \<and> (739698 :: int) \<le> 739700 \<and> (739698 :: int) \<notin> {739693}
   \<and> (739687 :: int) \<le> 739700 \<and> (739700 :: int) \<le> 739700 \<and> (739700 :: int) \<notin> {739693}"
  using build_schedule_meeting_dates [of "[0, 2]"
      "\<lparr>week_number = 3, week_start = 739698, week_end = 739704,
         meeting_dates = [739698, 739700]\<rparr>" 739687 739700 "{739693}"]
  by (simp add: example_schedule)

text \<open>
  Claim C3, amended. For dates with \<open>start_date \<le> end_date\<close>, an end date no later than
  9999-12-19 (\<open>MAXORDINAL - 12\<close>) and meeting days among 0..6, \<open>build_schedule\<close> ends
  normally after yielding finitely many weeks; their week numbers are exactly
  \<open>1..K\<close> in ascending order, where \<open>K\<close> is the number of Monday-to-Sunday calendar
  weeks intersecting the range; their week starts are the Mondays of those calendar
  weeks; and no week is yielded whose week start exceeds the end date.
\<close>

theorem build_schedule_week_numbers:
  assumes "is_date s" "is_date e" "s \<le> e" "e \<le> MAXORDINAL - 12" "set mds \<subseteq> {0..6}"
  shows "snd (build_schedule s e mds nc) = None \<and>
   map week_number (fst (build_schedule s e mds nc)) = [1..<Suc (length (calendar_weeks s e))] \<and>
   map week_start (fst (build_schedule s e mds nc)) = calendar_weeks s e \<and>
   (\<forall>w\<in>set (fst (build_schedule s e mds nc)). week_start w \<le> e)"
proof -
  let ?fm = "s - weekday s"
  from assms(1) have fm: "date_add s (- weekday s) = Inr ?fm" by (simp add: first_monday_ok)
  then have pos: "0 < ?fm + 7 * int 0" by (simp add: date_add_Inr)
  have mon: "weekday ?fm = 0" by (rule weekday_first_monday)
  have E: "min e (MAXORDINAL - 6) = e" using assms(4) by simp
  define n where "n = nat ((min e (MAXORDINAL - 6) + 7 - (?fm + 7 * int 0)) div 7)"
  then have n: "n = nat ((e + 7 - ?fm) div 7)" by (simp add: E)
  have "?fm \<le> s" using weekday_range[of s] by simp
  with assms(3) have "?fm \<le> e" by linarith
  then have "?fm + 7 * int n \<le> e + 7" unfolding n by simp linarith
  from last_monday_bound[OF mon assms(4) this]
  have fin: "?fm + 7 * int (0 + n) + 6 \<le> MAXORDINAL" by simp
  have bs: "build_schedule s e mds nc = (map (week_at ?fm s e mds nc) [0..<n], None)"
    using build_weeks_exact[OF pos assms(5) n_def, of s nc] fm fin
    by (simp add: build_schedule_def)
  have cw: "calendar_weeks s e = map (\<lambda>j. ?fm + 7 * int j) [0..<n]"
    unfolding calendar_weeks_def mondays_window[OF assms(3)]
    by (rule mondays_from[OF mon n])
  have starts: "map week_start (map (week_at ?fm s e mds nc) [0..<n])
      = map (\<lambda>j. ?fm + 7 * int j) [0..<n]"
    by (simp add: week_at_def)
  have nums: "map week_number (map (week_at ?fm s e mds nc) [0..<n]) = [1..<Suc n]"
    using map_Suc_upt[of 0 n] by (simp add: week_at_def comp_def)
  have len: "length (calendar_weeks s e) = n" by (simp add: cw)
  have le: "\<forall>w\<in>set (map (week_at ?fm s e mds nc) [0..<n]). week_start w \<le> e"
  proof
    fix w assume "w \<in> set (map (week_at ?fm s e mds nc) [0..<n])"
    then obtain j where j: "j < n" and w: "w = week_at ?fm s e mds nc j" by auto
    from j have "?fm + 7 * int j \<le> e" unfolding n by simp
    with w show "week_start w \<le> e" by (simp add: week_at_def)
  qed
  show ?thesis
    unfolding bs fst_conv snd_conv len using starts nums le cw by simp
qed

theorem build_schedule_week_numbers_witness:
  "is_date 739687 \<and> is_date 739700 \<and> (739687 :: int) \<le> 739700 \<and> 739700 \<le> MAXORDINAL - 12
   \<and> set [0, 2 :: int] \<subseteq> {0..6}
   \<and> snd (build_schedule 739687 739700 [0, 2] {739693}) = None
   \<and> map week_number (fst (build_schedule 739687 739700 [0, 2] {739693})) = [1, 2, 3]
   \<and> length (calendar_weeks 739687 739700) = 3
   \<and> map week_start (fst (build_schedule 739687 739700 [0, 2] {739693}))
       = calendar_weeks 739687 739700"
proof -
  have sub: "set [0, 2 :: int] \<subseteq> {0..6}" and le: "(739687 :: int) \<le> 739700" by simp_all
  from build_schedule_week_numbers [OF example_dates(1,2) le example_dates(3) sub, of "{739693}"]
  show ?thesis
    using example_dates sub by (simp add: example_calendar_weeks example_schedule)
qed

text \<open>
  The claim as stated (every pair \<open>start_date \<le> end_date\<close>) fails at the end of the
  range of the date type: for 9999-12-31 one calendar week intersects the range, but
  the generator raises the overflow error before yielding any week.
\<close>

theorem build_schedule_week_numbers_counterexample:
  "is_date 3652059 \<and> (3652059 :: int) \<le> 3652059 \<and> set [0, 2, 4 :: int] \<subseteq> {0..6}
   \<and> length (calendar_weeks 3652059 3652059) = 1
   \<and> build_schedule 3652059 3652059 [0, 2, 4] {} = ([], Some DateOverflow)
   \<and> parse_date ''12/31/9999'' = Inr 3652059"
proof -
  have "calendar_weeks 3652059 3652059 = [3652055]" by code_simp
  moreover have "build_schedule 3652059 3652059 [0, 2, 4] {} = ([], Some DateOverflow)"
    by code_simp
  moreover have "parse_date ''12/31/9999'' = Inr 3652059" by code_simp
  ultimately show ?thesis by (simp add: is_date_def MAXORDINAL_def)
qed

subsection \<open>Meeting-day patterns\<close>

text \<open>
  Claim C4. \<open>parse_meeting_days\<close> returns \<open>[0, 2, 4]\<close> for "MWF", \<open>[1, 3]\<close> for "TR",
  \<open>[0, 2]\<close> for "Mon Wed" and \<open>[1]\<close> for "tuesday".
\<close>

theorem parse_meeting_days_examples:
  "parse_meeting_days ''MWF'' = Inr [0, 2, 4]
   \<and> parse_meeting_days ''TR'' = Inr [1, 3]
   \<and> parse_meeting_days ''Mon Wed'' = Inr [0, 2]
   \<and> parse_meeting_days ''tuesday'' = Inr [1]"
  by code_simp

lemma collect_weekdays_distinct:
  "distinct acc \<Longrightarrow> collect_weekdays acc toks = Inr wds \<Longrightarrow> distinct wds"
proof (induction toks arbitrary: acc)
  case Nil
  then show ?case by simp
next
  case (Cons tok toks)
  show ?case
  proof (cases "day_lookup (lower tok)")
    case None
    with Cons.prems show ?thesis by simp
  next
    case (Some wd)
    show ?thesis
    proof (cases "wd \<in> set acc")
      case True
      with Some Cons.prems have "collect_weekdays acc toks = Inr wds" by simp
      with Cons.IH Cons.prems(1) show ?thesis by blast
    next
      case False
      with Some Cons.prems have "collect_weekdays (acc @ [wd]) toks = Inr wds" by simp
      moreover from False Cons.prems(1) have "distinct (acc @ [wd])" by simp
      ultimately show ?thesis using Cons.IH by blast
    qed
  qed
qed

text \<open>
  Claim C5. Whenever \<open>parse_meeting_days\<close> succeeds, the weekday list it returns has
  no duplicates and is sorted in ascending order.
\<close>

theorem parse_meeting_days_sorted_distinct:
  "parse_meeting_days meeting_days_str = Inr wds \<Longrightarrow> distinct wds \<and> sorted wds"
proof -
  assume "parse_meeting_days meeting_days_str = Inr wds"
  then obtain raw where raw: "collect_weekdays [] (day_tokens meeting_days_str) = Inr raw"
    and wds: "wds = sort raw"
    by (auto simp: parse_meeting_days_def split: sum.splits)
  from collect_weekdays_distinct[OF _ raw] have "distinct raw" by simp
  with wds show ?thesis by simp
qed

theorem parse_meeting_days_sorted_distinct_witness:
  "parse_meeting_days ''fri, mon Friday W'' = Inr [0, 2, 4]
   \<and> distinct [0, 2, 4 :: int] \<and> sorted [0, 2, 4 :: int]"
proof -
  have ex: "parse_meeting_days ''fri, mon Friday W'' = Inr [0, 2, 4]" by code_simp
  from parse_meeting_days_sorted_distinct [OF ex] ex show ?thesis by simp
qed










subsection \<open>The main program: argument errors\<close>

lemma example_parse_dates:
  "parse_date ''3/12/2026'' = Inr 739687" "parse_date ''3/25/2026'' = Inr 739700"
  by code_simp+

text \<open>
  Claim C6. Whenever both date arguments have been parsed and the end date precedes
  the start date, the program stops with the range error and has written no file
  (it has had no effect at all).
\<close>

theorem main_range_error:
  "4 \<le> length argv \<Longrightarrow> parse_date (argv ! 1) = Inr start_date \<Longrightarrow>
   parse_date (argv ! 2) = Inr end_date \<Longrightarrow> end_date < start_date \<Longrightarrow>
   main argv = ([], Some RangeExit) \<and> writes (fst (main argv)) = []"
  by (simp add: main_def)

theorem main_range_error_witness:
  "4 \<le> length [''make_weeks.py'', ''3/25/2026'', ''3/12/2026'', ''Mon Wed'']
   \<and> parse_date ([''make_weeks.py'', ''3/25/2026'', ''3/12/2026'', ''Mon Wed''] ! 1) = Inr 739700
   \<and> parse_date ([''make_weeks.py'', ''3/25/2026'', ''3/12/2026'', ''Mon Wed''] ! 2) = Inr 739687
   \<and> (739687 :: int) < 739700
   \<and> main [''make_weeks.py'', ''3/25/2026'', ''3/12/2026'', ''Mon Wed''] = ([], Some RangeExit)
   \<and> writes (fst (main [''make_weeks.py'', ''3/25/2026'', ''3/12/2026'', ''Mon Wed''])) = []"
proof -
  let ?argv = "[''make_weeks.py'', ''3/25/2026'', ''3/12/2026'', ''Mon Wed'']"
  have len: "4 \<le> length ?argv" by simp
  have a: "parse_date (?argv ! 1) = Inr 739700" by (simp add: example_parse_dates)
  have b: "parse_date (?argv ! 2) = Inr 739687" by (simp add: example_parse_dates)
  have lt: "(739687 :: int) < 739700" by simp
  from main_range_error [OF len a b lt] len a b lt show ?thesis by blast
qed

lemma index_of_last: "x \<notin> set pre \<Longrightarrow> index_of x (pre @ [x]) = length pre"
  by (induction pre) (auto simp: index_of_def)

text \<open>
  Claim C7, amended. For an argument list of at least four tokens whose start and end
  tokens parse to dates with \<open>start_date \<le> end_date\<close> and whose meeting-day token
  parses, if the only occurrence of the \<^verbatim>\<open>--no-class\<close> flag is the last token, the
  program stops with the missing-value error, having written nothing. When the flag
  is absent, the exclusion set is empty, and the schedule is run with the empty set.
\<close>

theorem main_no_class_missing_value:
  "(4 \<le> length argv \<and> parse_date (argv ! 1) = Inr start_date
      \<and> parse_date (argv ! 2) = Inr end_date \<and> start_date \<le> end_date
      \<and> parse_meeting_days (argv ! 3) = Inr mds
      \<and> argv = pre @ [''--no-class''] \<and> ''--no-class'' \<notin> set pre
    \<longrightarrow> main argv = ([], Some MissingValueExit))
   \<and> (''--no-class'' \<notin> set argv' \<longrightarrow> no_class_arg argv' = Inr {})
   \<and> (4 \<le> length argv' \<and> parse_date (argv' ! 1) = Inr start_date'
      \<and> parse_date (argv' ! 2) = Inr end_date' \<and> start_date' \<le> end_date'
      \<and> parse_meeting_days (argv' ! 3) = Inr mds' \<and> ''--no-class'' \<notin> set argv'
    \<longrightarrow> main argv' = run_schedule start_date' end_date' mds' {})"
proof (intro conjI impI)
  assume h: "4 \<le> length argv \<and> parse_date (argv ! 1) = Inr start_date
      \<and> parse_date (argv ! 2) = Inr end_date \<and> start_date \<le> end_date
      \<and> parse_meeting_days (argv ! 3) = Inr mds
      \<and> argv = pre @ [''--no-class''] \<and> ''--no-class'' \<notin> set pre"
  then have len: "4 \<le> length argv" and p1: "parse_date (argv ! 1) = Inr start_date"
    and p2: "parse_date (argv ! 2) = Inr end_date" and le: "\<not> end_date < start_date"
    and md: "parse_meeting_days (argv ! 3) = Inr mds"
    and av: "argv = pre @ [''--no-class'']" and nf: "''--no-class'' \<notin> set pre"
    by auto
  have nc: "no_class_arg argv = Inl MissingValueExit"
    unfolding av using nf by (simp add: no_class_arg_def index_of_last)
  from len have len': "\<not> length argv < 4" by simp
  show "main argv = ([], Some MissingValueExit)"
    unfolding main_def by (simp only: len' p1 p2 le md nc if_False sum.case)
next
  assume "''--no-class'' \<notin> set argv'"
  then show "no_class_arg argv' = Inr {}" by (simp add: no_class_arg_def)
next
  assume h: "4 \<le> length argv' \<and> parse_date (argv' ! 1) = Inr start_date'
      \<and> parse_date (argv' ! 2) = Inr end_date' \<and> start_date' \<le> end_date'
      \<and> parse_meeting_days (argv' ! 3) = Inr mds' \<and> ''--no-class'' \<notin> set argv'"
  then have "no_class_arg argv' = Inr {}" by (simp add: no_class_arg_def)
  with h show "main argv' = run_schedule start_date' end_date' mds' {}"
    by (simp add: main_def)
qed

theorem main_no_class_missing_value_witness:
  "4 \<le> length [''make_weeks.py'', ''3/12/2026'', ''3/25/2026'', ''Mon Wed'', ''--no-class'']
   \<and> parse_date ''3/12/2026'' = Inr 739687 \<and> parse_date ''3/25/2026'' = Inr 739700
   \<and> (739687 :: int) \<le> 739700 \<and> parse_meeting_days ''Mon Wed'' = Inr [0, 2]
   \<and> ''--no-class'' \<notin> set [''make_weeks.py'', ''3/12/2026'', ''3/25/2026'', ''Mon Wed'']
   \<and> main [''make_weeks.py'', ''3/12/2026'', ''3/25/2026'', ''Mon Wed'', ''--no-class'']
       = ([], Some MissingValueExit)
   \<and> no_class_arg [''make_weeks.py'', ''3/12/2026'', ''3/25/2026'', ''Mon Wed''] = Inr {}
   \<and> main [''make_weeks.py'', ''3/12/2026'', ''3/25/2026'', ''Mon Wed'']
       = run_schedule 739687 739700 [0, 2] {}"
proof -
  let ?pre = "[''make_weeks.py'', ''3/12/2026'', ''3/25/2026'', ''Mon Wed'']"
  have md: "parse_meeting_days ''Mon Wed'' = Inr [0, 2]" by code_simp
  have nf: "''--no-class'' \<notin> set ?pre" by simp
  from main_no_class_missing_value
    [of "?pre @ [''--no-class'']" 739687 739700 "[0, 2]" ?pre ?pre 739687 739700 "[0, 2]"]
    example_parse_dates md nf
  show ?thesis by simp
qed

text \<open>
  The claim as stated (every argument list with a dangling flag) fails because the
  missing-value test comes after the range test and after the meeting-day parsing:
  with a reversed range the program stops with the range error, and with the flag in
  the place of the meeting days it stops with the unknown-day error.
\<close>

theorem main_no_class_missing_value_counterexample:
  "''--no-class'' \<in> set [''make_weeks.py'', ''3/25/2026'', ''3/12/2026'', ''MWF'', ''--no-class'']
   \<and> index_of ''--no-class'' [''make_weeks.py'', ''3/25/2026'', ''3/12/2026'', ''MWF'', ''--no-class'']
        + 1 = length [''make_weeks.py'', ''3/25/2026'', ''3/12/2026'', ''MWF'', ''--no-class'']
   \<and> main [''make_weeks.py'', ''3/25/2026'', ''3/12/2026'', ''MWF'', ''--no-class'']
        = ([], Some RangeExit)
   \<and> main [''make_weeks.py'', ''3/12/2026'', ''3/25/2026'', ''--no-class'']
        = ([], Some (UnknownDay ''--no-class''))"
  by code_simp

subsection \<open>The documents written\<close>

lemma writes_append: "writes (effs @ effs') = writes effs @ writes effs'"
  by (induction effs rule: writes.induct) simp_all

lemma writes_weeks:
  "writes (concat (map write_week weeks)) =
     map (\<lambda>w. (week_filename (week_number w),
                generate_week_xml (week_number w) (week_start w) (week_end w) (meeting_dates w)))
       weeks"
  by (induction weeks) (simp_all add: write_week_def)



lemma run_schedule_writes:
  "writes (fst (run_schedule s e mds nc)) =
     map (\<lambda>w. (week_filename (week_number w),
                generate_week_xml (week_number w) (week_start w) (week_end w) (meeting_dates w)))
       (fst (build_schedule s e mds nc))
     @ (case snd (build_schedule s e mds nc) of
          None \<Rightarrow> [(''main.ptx'', join_lines (main_ptx_lines
                      (map (\<lambda>w. week_filename (week_number w)) (fst (build_schedule s e mds nc)))))]
        | Some err \<Rightarrow> [])"
  by (cases "build_schedule s e mds nc")
     (auto simp: run_schedule_def writes_append writes_weeks generate_main_ptx_def
           split: option.splits)














lemma monday_offset:
  "weekday m = 0 \<Longrightarrow> s \<le> m + 6 \<Longrightarrow>
   s - weekday s \<le> m \<and> m = (s - weekday s) + 7 * ((m - (s - weekday s)) div 7)"
  unfolding weekday_def by presburger

lemma empty_week_xml:
  \<open>generate_week_xml n m m' [] =
     (''<?xml version="1.0" encoding="utf-8"?>''
                @ [CHR 0x0A] @ ''<subsection xml:id="week-'' @ fmt_02d n @ ''">''
                @ [CHR 0x0A] @ ''  <title>'' @ format_date_for_title m @ '' <ndash/> ''
                    @ format_date_for_title m' @ ''</title>''
                @ [CHR 0x0A] @ ''  <p>''
                @ [CHR 0x0A] @ ''    <dl>''
                @ [CHR 0x0A] @ ''    </dl>''
                @ [CHR 0x0A] @ ''  </p>''
                @ [CHR 0x0A] @ ''</subsection>'')\<close>
  by (simp add: generate_week_xml_def week_xml_lines_def)

text \<open>
  Claim C8, amended. For every Monday-to-Sunday calendar week that intersects the
  range and whose Sunday is still a date (no later than 9999-12-31), if all its
  candidate meeting dates are removed (out of range or excluded), the week is still
  yielded, with an empty meeting list, and a week document is still written for it;
  its text is the heading lines followed directly by the empty list element and the
  closing tags.
\<close>

theorem empty_week_still_written:
  assumes \<open>is_date s\<close> \<open>is_date e\<close> \<open>s \<le> e\<close> \<open>set mds \<subseteq> {0..6}\<close>
    and \<open>weekday m = 0\<close> \<open>m \<le> e\<close> \<open>s \<le> m + 6\<close> \<open>m + 6 \<le> MAXORDINAL\<close>
    and \<open>\<forall>wd\<in>set mds. \<not> (s \<le> m + wd \<and> m + wd \<le> e \<and> m + wd \<notin> nc)\<close>
  shows \<open>\<exists>n. \<lparr>week_number = n, week_start = m, week_end = m + 6, meeting_dates = []\<rparr>
              \<in> set (fst (build_schedule s e mds nc))
          \<and> (week_filename n,
              (''<?xml version="1.0" encoding="utf-8"?>''
                @ [CHR 0x0A] @ ''<subsection xml:id="week-'' @ fmt_02d n @ ''">''
                @ [CHR 0x0A] @ ''  <title>'' @ format_date_for_title m @ '' <ndash/> ''
                    @ format_date_for_title (m + 6) @ ''</title>''
                @ [CHR 0x0A] @ ''  <p>''
                @ [CHR 0x0A] @ ''    <dl>''
                @ [CHR 0x0A] @ ''    </dl>''
                @ [CHR 0x0A] @ ''  </p>''
                @ [CHR 0x0A] @ ''</subsection>''))
              \<in> set (writes (fst (run_schedule s e mds nc)))\<close>
proof -
  let ?fm = "s - weekday s"
  define q where "q = (m - ?fm) div 7"
  define j where "j = nat q"
  from monday_offset[OF assms(5,7)] have ge: "?fm \<le> m" and mq: "m = ?fm + 7 * q"
    unfolding q_def by blast+
  from ge have "0 \<le> q" unfolding q_def by simp
  then have mj: "m = ?fm + 7 * int j" using mq unfolding j_def by simp
  from assms(1) have fm: "date_add s (- weekday s) = Inr ?fm" by (simp add: first_monday_ok)
  then have pos: "0 < ?fm + 7 * int 0" by (simp add: date_add_Inr)
  define n where "n = nat ((min e (MAXORDINAL - 6) + 7 - (?fm + 7 * int 0)) div 7)"
  from assms(6,8) have "m \<le> min e (MAXORDINAL - 6)" by simp
  with mq have "q + 1 \<le> (min e (MAXORDINAL - 6) + 7 - ?fm) div 7" by arith
  with \<open>0 \<le> q\<close> have jn: "j < n" unfolding j_def n_def by simp
  have weeks: "fst (build_schedule s e mds nc) = map (week_at ?fm s e mds nc) [0..<n]"
    using build_weeks_exact[OF pos assms(4) n_def, of s nc] fm
    by (simp add: build_schedule_def)
  have "filter (\<lambda>d. s \<le> d \<and> d \<le> e \<and> d \<notin> nc) (map (\<lambda>wd. m + wd) mds) = []"
    using assms(9) by (intro filter_False) auto
  then have wk: "week_at ?fm s e mds nc j =
      \<lparr>week_number = j + 1, week_start = m, week_end = m + 6, meeting_dates = []\<rparr>"
    unfolding week_at_def mj[symmetric] by simp
  let ?w = "\<lparr>week_number = j + 1, week_start = m, week_end = m + 6, meeting_dates = []\<rparr>"
  from jn have "week_at ?fm s e mds nc j \<in> set (map (week_at ?fm s e mds nc) [0..<n])"
    by simp
  then have mem: "?w \<in> set (fst (build_schedule s e mds nc))"
    unfolding weeks wk .
  then have "(week_filename (week_number ?w),
        generate_week_xml (week_number ?w) (week_start ?w) (week_end ?w) (meeting_dates ?w))
      \<in> set (writes (fst (run_schedule s e mds nc)))"
    unfolding run_schedule_writes by (simp only: set_append set_map) blast
  then have "(week_filename (j + 1), generate_week_xml (j + 1) m (m + 6) [])
      \<in> set (writes (fst (run_schedule s e mds nc)))"
    by simp
  with mem show ?thesis
    unfolding empty_week_xml by (intro exI[of _ "j + 1"] conjI)
qed

theorem empty_week_still_written_witness:
  \<open>is_date 739687 \<and> is_date 739700 \<and> (739687 :: int) \<le> 739700 \<and> set [0, 2 :: int] \<subseteq> {0..6}
   \<and> weekday 739684 = 0 \<and> (739684 :: int) \<le> 739700 \<and> (739687 :: int) \<le> 739684 + 6
   \<and> 739684 + 6 \<le> MAXORDINAL
   \<and> \<not> (739687 :: int) \<le> 739684 + 0 \<and> \<not> (739687 :: int) \<le> 739684 + 2
   \<and> (\<exists>n. \<lparr>week_number = n, week_start = 739684, week_end = 739684 + 6, meeting_dates = []\<rparr>
              \<in> set (fst (build_schedule 739687 739700 [0, 2] {739693}))
          \<and> (week_filename n,
              (''<?xml version="1.0" encoding="utf-8"?>''
                @ [CHR 0x0A] @ ''<subsection xml:id="week-'' @ fmt_02d n @ ''">''
                @ [CHR 0x0A] @ ''  <title>'' @ format_date_for_title 739684 @ '' <ndash/> ''
                    @ format_date_for_title (739684 + 6) @ ''</title>''
                @ [CHR 0x0A] @ ''  <p>''
                @ [CHR 0x0A] @ ''    <dl>''
                @ [CHR 0x0A] @ ''    </dl>''
                @ [CHR 0x0A] @ ''  </p>''
                @ [CHR 0x0A] @ ''</subsection>''))
              \<in> set (writes (fst (run_schedule 739687 739700 [0, 2] {739693}))))\<close>
  (is "?H1 \<and> ?H2 \<and> ?H3 \<and> ?H4 \<and> ?H5 \<and> ?H6 \<and> ?H7 \<and> ?H8 \<and> ?H9 \<and> ?H10 \<and> ?C")
proof -
  have h4: ?H4 and h3: ?H3 and h6: ?H6 and h7: ?H7 and h9: ?H9 and h10: ?H10 by simp_all
  have h5: ?H5 by (simp add: weekday_def)
  have h8: ?H8 by (simp add: MAXORDINAL_def)
  have rem: "\<forall>wd\<in>set [0, 2 :: int].
      \<not> (739687 \<le> 739684 + wd \<and> 739684 + wd \<le> 739700 \<and> 739684 + wd \<notin> {739693})"
    by simp
  from empty_week_still_written [OF example_dates(1,2) h3 h4 h5 h6 h7 h8 rem] have ?C .
  with example_dates(1,2) h3 h4 h5 h6 h7 h8 h9 h10 show ?thesis by (intro conjI)
qed

text \<open>
  The claim as stated (every calendar week intersecting the range) fails for the
  last, incomplete week of the year 9999: for a range of the single day 9999-12-31
  with meeting days Monday and Wednesday, the week of Monday 9999-12-27 intersects
  the range and both its candidates fall before the start date, yet no week is
  yielded and no file is written, because computing the week's end date overflows.
\<close>

theorem empty_week_still_written_counterexample:
  "weekday 3652055 = 0 \<and> (3652055 :: int) \<le> 3652059 \<and> (3652059 :: int) \<le> 3652055 + 6
   \<and> (3652055 :: int) + 0 < 3652059 \<and> (3652055 :: int) + 2 < 3652059
   \<and> parse_meeting_days ''MW'' = Inr [0, 2]
   \<and> build_schedule 3652059 3652059 [0, 2] {} = ([], Some DateOverflow)
   \<and> main [''make_weeks.py'', ''12/31/9999'', ''12/31/9999'', ''MW''] = ([], Some DateOverflow)"
proof -
  have "parse_meeting_days ''MW'' = Inr [0, 2]" by code_simp
  moreover have "build_schedule 3652059 3652059 [0, 2] {} = ([], Some DateOverflow)"
    by code_simp
  moreover have "main [''make_weeks.py'', ''12/31/9999'', ''12/31/9999'', ''MW'']
      = ([], Some DateOverflow)"
    by code_simp
  ultimately show ?thesis by (simp add: weekday_def)
qed

end
